theory Spec2Isabelle
  imports Main "HOL-Library.Word"
begin

unbundle bit_operations_syntax

section \<open>Data model\<close>

text \<open>
  \<^verbatim>\<open>typedef struct rgb_color { uint8_t red, green, blue; } rgb_color;\<close>
\<close>

type_synonym uint8_t = "8 word"
type_synonym uint16_t = "16 word"

record rgb_color =
  red :: uint8_t
  green :: uint8_t
  blue :: uint8_t

text \<open>
  The class template \<^verbatim>\<open>APA102<dataPin, clockPin>\<close> binds the two lines of the
  two-wire link, the data line and the clock line. They are two different pins, the two
  values of this type.
\<close>

datatype pin = dataPin | clockPin

text \<open>
  One call of the GPIO capability, as it is seen from outside: a level written to a pin
  (\<open>True\<close> is high), or a pin made an output.
\<close>

datatype gpio_call = DigitalWrite pin bool | PinModeOutput pin

text \<open>
  The state of the two pins: the level last written to each pin, whether the pin has been
  made an output, and every GPIO call made so far, oldest first.
\<close>

record gpio =
  level :: "pin \<Rightarrow> bool"
  is_output :: "pin \<Rightarrow> bool"
  calls :: "gpio_call list"

text \<open>
  Reading \<^verbatim>\<open>colors[i]\<close> past the end of the array the caller passed is undefined
  behaviour in C++; the model stops with this error.
\<close>

datatype error = OutOfBounds

section \<open>The GPIO capability\<close>

text \<open>
  Modelled from the spec: the Arduino core (\<^verbatim>\<open>Arduino.h\<close>) is an external
  collaborator, not part of the repository. Section 6 of the spec gives it two
  operations, \<^verbatim>\<open>setOutput(pin, level)\<close> and \<^verbatim>\<open>configureAsOutput(pin)\<close>;
  they are \<^verbatim>\<open>digitalWrite\<close> and \<^verbatim>\<open>pinMode(pin, OUTPUT)\<close>. The level
  argument of \<^verbatim>\<open>digitalWrite\<close> is a \<^verbatim>\<open>uint8_t\<close>: \<^verbatim>\<open>LOW\<close> is 0, anything else is high.
\<close>

definition LOW :: uint8_t where
  "LOW = 0"

definition HIGH :: uint8_t where
  "HIGH = 1"

definition digitalWrite :: "pin \<Rightarrow> uint8_t \<Rightarrow> gpio \<Rightarrow> gpio" where
  "digitalWrite p val s =
     s\<lparr>level := (level s)(p := (val \<noteq> LOW)),
       calls := calls s @ [DigitalWrite p (val \<noteq> LOW)]\<rparr>"

definition pinMode_OUTPUT :: "pin \<Rightarrow> gpio \<Rightarrow> gpio" where
  "pinMode_OUTPUT p s =
     s\<lparr>is_output := (is_output s)(p := True),
       calls := calls s @ [PinModeOutput p]\<rparr>"

section \<open>The bit-transfer engine\<close>

text \<open>
  \<^verbatim>\<open>init()\<close> and \<^verbatim>\<open>transfer(b)\<close>, in the variant compiled without
  \<^verbatim>\<open>APA102_USE_FAST_GPIO\<close> (the other variant makes the same calls in the same
  order through a library that is not part of the repository). In C++,
  \<^verbatim>\<open>b >> 7 & 1\<close> is \<^verbatim>\<open>(b >> 7) & 1\<close>.
\<close>

definition init :: "gpio \<Rightarrow> gpio" where
  "init s0 =
    (let s = digitalWrite dataPin LOW s0;
         s = pinMode_OUTPUT dataPin s;
         s = digitalWrite clockPin LOW s;
         s = pinMode_OUTPUT clockPin s
     in s)"

definition transfer :: "uint8_t \<Rightarrow> gpio \<Rightarrow> gpio" where
  "transfer b s0 =
    (let s = digitalWrite dataPin (drop_bit 7 b AND 1) s0;
         s = digitalWrite clockPin HIGH s;
         s = digitalWrite clockPin LOW s;
         s = digitalWrite dataPin (drop_bit 6 b AND 1) s;
         s = digitalWrite clockPin HIGH s;
         s = digitalWrite clockPin LOW s;
         s = digitalWrite dataPin (drop_bit 5 b AND 1) s;
         s = digitalWrite clockPin HIGH s;
         s = digitalWrite clockPin LOW s;
         s = digitalWrite dataPin (drop_bit 4 b AND 1) s;
         s = digitalWrite clockPin HIGH s;
         s = digitalWrite clockPin LOW s;
         s = digitalWrite dataPin (drop_bit 3 b AND 1) s;
         s = digitalWrite clockPin HIGH s;
         s = digitalWrite clockPin LOW s;
         s = digitalWrite dataPin (drop_bit 2 b AND 1) s;
         s = digitalWrite clockPin HIGH s;
         s = digitalWrite clockPin LOW s;
         s = digitalWrite dataPin (drop_bit 1 b AND 1) s;
         s = digitalWrite clockPin HIGH s;
         s = digitalWrite clockPin LOW s;
         s = digitalWrite dataPin (drop_bit 0 b AND 1) s;
         s = digitalWrite clockPin HIGH s;
         s = digitalWrite clockPin LOW s
     in s)"

section \<open>The frame protocol\<close>

definition startFrame :: "gpio \<Rightarrow> gpio" where
  "startFrame s0 =
    (let s = init s0;
         s = transfer 0 s;
         s = transfer 0 s;
         s = transfer 0 s;
         s = transfer 0 s
     in s)"

text \<open>
  \<^verbatim>\<open>for (uint16_t i = 0; i < 5 + count / 16; i++) transfer(0);\<close>
  The bound is at most \<open>5 + 4095\<close>, so neither it nor \<open>i\<close> wraps, in 16-bit
  arithmetic (AVR) as in 32-bit arithmetic.
\<close>

function endFrame_loop :: "uint16_t \<Rightarrow> uint16_t \<Rightarrow> gpio \<Rightarrow> gpio" where
  "endFrame_loop count i s =
     (if i < 5 + count div 16 then endFrame_loop count (i + 1) (transfer 0 s) else s)"
  by pat_completeness auto
termination
proof (relation "measure (\<lambda>(count, i, s). unat (5 + count div 16) - unat i)")
  show "wf (measure (\<lambda>(count, i, s). unat (5 + count div 16) - unat i))"
    by simp
next
  fix count i :: uint16_t and s :: gpio
  assume lt: "i < 5 + count div 16"
  then have "unat i < unat (5 + count div 16)"
    by (simp add: word_less_nat_alt)
  moreover have "unat (5 + count div 16) < 2 ^ 16"
    using unsigned_less [of "5 + count div 16", where 'a = nat] by simp
  ultimately have "unat i + unat (1 :: uint16_t) < 2 ^ LENGTH(16)"
    by simp
  then have "unat (i + 1) = unat i + unat (1 :: uint16_t)"
    by (simp only: unat_add_lem)
  then have "unat (i + 1) = Suc (unat i)"
    by simp
  with lt show "((count, i + 1, transfer 0 s), (count, i, s))
      \<in> measure (\<lambda>(count, i, s). unat (5 + count div 16) - unat i)"
    by (simp add: word_less_nat_alt)
qed

definition endFrame :: "uint16_t \<Rightarrow> gpio \<Rightarrow> gpio" where
  "endFrame count s0 =
    (let s = transfer 0xFF s0;
         s = endFrame_loop count 0 s
     in s)"

text \<open>The first byte is \<^verbatim>\<open>0b11100000 | brightness\<close>; \<open>0b11100000\<close> is \<open>0xE0\<close>.\<close>

definition sendColor :: "uint8_t \<Rightarrow> uint8_t \<Rightarrow> uint8_t \<Rightarrow> uint8_t \<Rightarrow> gpio \<Rightarrow> gpio" where
  "sendColor r g b brightness s0 =
    (let s = transfer (0xE0 OR brightness) s0;
         s = transfer b s;
         s = transfer g s;
         s = transfer r s
     in s)"

text \<open>The overload that takes the struct (by value).\<close>

definition sendColor_rgb :: "rgb_color \<Rightarrow> uint8_t \<Rightarrow> gpio \<Rightarrow> gpio" where
  "sendColor_rgb color brightness s =
     sendColor (red color) (green color) (blue color) brightness s"

text \<open>
  \<^verbatim>\<open>for (uint16_t i = 0; i < count; i++) sendColor(colors[i], brightness);\<close>
  The array is memory that the function reaches through a pointer to non-const, so it is
  part of the state the loop passes on.
\<close>

function write_loop ::
  "rgb_color list \<Rightarrow> uint16_t \<Rightarrow> uint8_t \<Rightarrow> uint16_t \<Rightarrow> gpio \<Rightarrow> error + rgb_color list \<times> gpio"
where
  "write_loop colors count brightness i s =
     (if i < count then
        (if unat i < length colors
         then write_loop colors count brightness (i + 1)
                (sendColor_rgb (colors ! unat i) brightness s)
         else Inl OutOfBounds)
      else Inr (colors, s))"
  by pat_completeness auto
termination
proof (relation "measure (\<lambda>(colors, count, brightness, i, s). unat count - unat i)")
  show "wf (measure (\<lambda>(colors, count, brightness, i, s). unat count - unat i))"
    by simp
next
  fix colors :: "rgb_color list" and count i :: uint16_t and brightness :: uint8_t
    and s :: gpio
  assume lt: "i < count"
  then have "unat i < unat count"
    by (simp add: word_less_nat_alt)
  moreover have "unat count < 2 ^ 16"
    using unsigned_less [of count, where 'a = nat] by simp
  ultimately have "unat i + unat (1 :: uint16_t) < 2 ^ LENGTH(16)"
    by simp
  then have "unat (i + 1) = unat i + unat (1 :: uint16_t)"
    by (simp only: unat_add_lem)
  then have "unat (i + 1) = Suc (unat i)"
    by simp
  with lt show "((colors, count, brightness, i + 1,
        sendColor_rgb (colors ! unat i) brightness s), (colors, count, brightness, i, s))
      \<in> measure (\<lambda>(colors, count, brightness, i, s). unat count - unat i)"
    by (simp add: word_less_nat_alt)
qed

text \<open>
  \<^verbatim>\<open>APA102::write(colors, count, brightness)\<close>. It returns the array with the state
  of the pins, or the error of a read past the end of the array.
\<close>

definition write_APA102 ::
  "rgb_color list \<Rightarrow> uint16_t \<Rightarrow> uint8_t \<Rightarrow> gpio \<Rightarrow> error + rgb_color list \<times> gpio"
where
  "write_APA102 colors count brightness s0 =
    (case write_loop colors count brightness 0 (startFrame s0) of
       Inl e \<Rightarrow> Inl e
     | Inr (colors', s) \<Rightarrow> Inr (colors', endFrame count s))"

section \<open>What the LED chain sees\<close>

text \<open>
  The GPIO calls made between two states: \<open>calls\<close> only grows, so these are the calls
  of \<open>s'\<close> after those of \<open>s\<close>.
\<close>

definition emitted :: "gpio \<Rightarrow> gpio \<Rightarrow> gpio_call list" where
  "emitted s s' = drop (length (calls s)) (calls s')"

text \<open>
  An APA102 takes the level of its data input at each rising edge of its clock input.
  \<open>clocked_bits d c cs\<close> are the bits a chip takes during the calls \<open>cs\<close>, when
  the data and clock pins are at the levels \<open>d\<close> and \<open>c\<close> before them. Writing
  high to a clock pin that is high already is no edge.
\<close>

fun clocked_bits :: "bool \<Rightarrow> bool \<Rightarrow> gpio_call list \<Rightarrow> bool list" where
  "clocked_bits d c [] = []"
| "clocked_bits d c (DigitalWrite dataPin v # cs) = clocked_bits v c cs"
| "clocked_bits d c (DigitalWrite clockPin v # cs) =
     (if v \<and> \<not> c then d # clocked_bits d v cs else clocked_bits d v cs)"
| "clocked_bits d c (PinModeOutput p # cs) = clocked_bits d c cs"

text \<open>The clock edges, rising and falling, that the calls \<open>cs\<close> make.\<close>

fun clock_edges :: "bool \<Rightarrow> gpio_call list \<Rightarrow> nat" where
  "clock_edges c [] = 0"
| "clock_edges c (DigitalWrite clockPin v # cs) =
     (if v = c then clock_edges v cs else Suc (clock_edges v cs))"
| "clock_edges c (DigitalWrite dataPin v # cs) = clock_edges c cs"
| "clock_edges c (PinModeOutput p # cs) = clock_edges c cs"

text \<open>
  The bits in groups of eight, each group a byte with its most significant bit first; bits
  left over at the end are no byte.
\<close>

fun bytes_of_bits :: "bool list \<Rightarrow> uint8_t list" where
  "bytes_of_bits (b7 # b6 # b5 # b4 # b3 # b2 # b1 # b0 # bs) =
     horner_sum of_bool 2 [b0, b1, b2, b3, b4, b5, b6, b7] # bytes_of_bits bs"
| "bytes_of_bits bs = []"

text \<open>The bytes the first LED of the chain receives between two states.\<close>

definition wire_bytes :: "gpio \<Rightarrow> gpio \<Rightarrow> uint8_t list" where
  "wire_bytes s s' =
     bytes_of_bits (clocked_bits (level s dataPin) (level s clockPin) (emitted s s'))"

definition wire_edges :: "gpio \<Rightarrow> gpio \<Rightarrow> nat" where
  "wire_edges s s' = clock_edges (level s clockPin) (emitted s s')"

text \<open>The bytes a call of \<open>write\<close> puts on the wire, or the error it stops with.\<close>

definition write_bytes ::
  "rgb_color list \<Rightarrow> uint16_t \<Rightarrow> uint8_t \<Rightarrow> gpio \<Rightarrow> error + uint8_t list"
where
  "write_bytes colors count brightness s =
    (case write_APA102 colors count brightness s of
       Inl e \<Rightarrow> Inl e
     | Inr (colors', s') \<Rightarrow> Inr (wire_bytes s s'))"

text \<open>
  The three calls that send one bit: the data line set to the bit, the clock raised, the
  clock lowered. \<open>byte_calls b\<close> sends the bits of \<open>b\<close> from bit 7 down to bit 0.
\<close>

definition bit_calls :: "bool \<Rightarrow> gpio_call list" where
  "bit_calls v = [DigitalWrite dataPin v, DigitalWrite clockPin True, DigitalWrite clockPin False]"

definition byte_calls :: "uint8_t \<Rightarrow> gpio_call list" where
  "byte_calls b =
     bit_calls (bit b 7) @ bit_calls (bit b 6) @ bit_calls (bit b 5) @ bit_calls (bit b 4) @
     bit_calls (bit b 3) @ bit_calls (bit b 2) @ bit_calls (bit b 1) @ bit_calls (bit b 0)"

text \<open>The four bytes of one LED, in the order \<open>sendColor\<close> transfers them.\<close>

definition led_word :: "uint8_t \<Rightarrow> rgb_color \<Rightarrow> uint8_t list" where
  "led_word brightness color = [0xE0 OR brightness, blue color, green color, red color]"

text \<open>
  The \<open>n\<close> four-byte words that follow the first four bytes of a stream: the word
  of LED \<open>k\<close> is at offset \<open>4 + 4 * k\<close>.
\<close>

definition led_words :: "nat \<Rightarrow> uint8_t list \<Rightarrow> uint8_t list list" where
  "led_words n bytes = map (\<lambda>k. take 4 (drop (4 + 4 * k) bytes)) [0..<n]"

text \<open>The bits of a byte, most significant first.\<close>

definition byte_bits :: "uint8_t \<Rightarrow> bool list" where
  "byte_bits b = [bit b 7, bit b 6, bit b 5, bit b 4, bit b 3, bit b 2, bit b 1, bit b 0]"

text \<open>A state to run examples from: nothing configured, nothing sent yet.\<close>

definition power_on :: gpio where
  "power_on = \<lparr>level = (\<lambda>p. False), is_output = (\<lambda>p. False), calls = []\<rparr>"

section \<open>The bit-transfer engine, call by call\<close>

lemma digitalWrite_bit0:
  "((b :: uint8_t) AND 1 \<noteq> 0) = bit b 0"
  by (simp add: and_one_eq bit_iff_odd_drop_bit mod_2_eq_odd)

lemma transfer_calls: "calls (transfer b s) = calls s @ byte_calls b"
  by (simp add: transfer_def Let_def digitalWrite_def digitalWrite_bit0 bit_drop_bit_eq
      byte_calls_def bit_calls_def HIGH_def LOW_def)

lemma transfer_level:
  "level (transfer b s) = (level s)(dataPin := bit b 0, clockPin := False)"
proof (rule ext)
  fix p
  show "level (transfer b s) p = ((level s)(dataPin := bit b 0, clockPin := False)) p"
    by (cases p)
      (simp_all add: transfer_def Let_def digitalWrite_def digitalWrite_bit0 bit_drop_bit_eq
        HIGH_def LOW_def)
qed

lemma transfer_is_output: "is_output (transfer b s) = is_output s"
  by (simp add: transfer_def Let_def digitalWrite_def)

lemma init_calls:
  "calls (init s) = calls s @
     [DigitalWrite dataPin False, PinModeOutput dataPin,
      DigitalWrite clockPin False, PinModeOutput clockPin]"
  by (simp add: init_def Let_def digitalWrite_def pinMode_OUTPUT_def LOW_def)

lemma init_level: "level (init s) p = False"
  by (cases p) (simp_all add: init_def Let_def digitalWrite_def pinMode_OUTPUT_def LOW_def)

lemma init_is_output: "is_output (init s) p = True"
  by (cases p) (simp_all add: init_def Let_def digitalWrite_def pinMode_OUTPUT_def)

section \<open>Sequences of transfers\<close>

text \<open>
  Every function of the frame protocol is a sequence of calls of \<open>transfer\<close>;
  \<open>fold transfer bs\<close> is the sequence that transfers the bytes \<open>bs\<close> in order.
\<close>

lemma transfers_calls: "calls (fold transfer bs s) = calls s @ concat (map byte_calls bs)"
  by (induction bs arbitrary: s) (simp_all add: transfer_calls)

lemma transfers_clock_low:
  "\<not> level s clockPin \<Longrightarrow> \<not> level (fold transfer bs s) clockPin"
  by (induction bs arbitrary: s) (simp_all add: transfer_level)

lemma transfers_is_output: "is_output (fold transfer bs s) = is_output s"
  by (induction bs arbitrary: s) (simp_all add: transfer_is_output)

lemma clocked_bits_byte:
  "clocked_bits d False (byte_calls b @ cs) = byte_bits b @ clocked_bits (bit b 0) False cs"
  by (simp add: byte_calls_def bit_calls_def byte_bits_def)

lemma clocked_bits_bytes:
  "clocked_bits d False (concat (map byte_calls bs)) = concat (map byte_bits bs)"
  by (induction bs arbitrary: d) (simp_all add: clocked_bits_byte)

lemma clock_edges_byte:
  "clock_edges False (byte_calls b @ cs) = 16 + clock_edges False cs"
  by (simp add: byte_calls_def bit_calls_def)

lemma clock_edges_bytes:
  "clock_edges False (concat (map byte_calls bs)) = 16 * length bs"
  by (induction bs) (simp_all add: clock_edges_byte)

lemma horner_sum_byte_bits:
  "horner_sum of_bool 2
     [bit b 0, bit b 1, bit b 2, bit b 3, bit b 4, bit b 5, bit b 6, bit b 7] = (b :: uint8_t)"
proof -
  have "[0..<8] = [0, 1, 2, 3, 4, 5, 6, 7 :: nat]"
    by (simp add: upt_rec)
  then show ?thesis
    using horner_sum_bit_eq_take_bit [of b 8] by (simp add: take_bit_word_eq_self)
qed

lemma bytes_of_byte_bits: "bytes_of_bits (byte_bits b @ bs) = b # bytes_of_bits bs"
  by (simp only: byte_bits_def append_Cons append_Nil bytes_of_bits.simps(1)
      horner_sum_byte_bits)

lemma bytes_of_bits_bytes: "bytes_of_bits (concat (map byte_bits bs)) = bs"
  by (induction bs) (simp_all add: bytes_of_byte_bits)

lemma emitted_append: "calls s' = calls s @ cs \<Longrightarrow> emitted s s' = cs"
  by (simp add: emitted_def)

lemma wire_bytes_transfers:
  assumes "\<not> level s clockPin"
  shows "wire_bytes s (fold transfer bs s) = bs"
proof -
  have "emitted s (fold transfer bs s) = concat (map byte_calls bs)"
    by (rule emitted_append) (rule transfers_calls)
  with assms show ?thesis
    by (simp add: wire_bytes_def clocked_bits_bytes bytes_of_bits_bytes)
qed

lemma wire_edges_transfers:
  assumes "\<not> level s clockPin"
  shows "wire_edges s (fold transfer bs s) = 16 * length bs"
proof -
  have "emitted s (fold transfer bs s) = concat (map byte_calls bs)"
    by (rule emitted_append) (rule transfers_calls)
  with assms show ?thesis
    by (simp add: wire_edges_def clock_edges_bytes)
qed

lemma wire_bytes_init_transfers: "wire_bytes s (fold transfer bs (init s)) = bs"
proof -
  have "emitted s (fold transfer bs (init s)) =
      [DigitalWrite dataPin False, PinModeOutput dataPin,
       DigitalWrite clockPin False, PinModeOutput clockPin] @ concat (map byte_calls bs)"
    by (rule emitted_append) (simp add: transfers_calls init_calls)
  then show ?thesis
    by (simp add: wire_bytes_def clocked_bits_bytes bytes_of_bits_bytes)
qed

section \<open>The frame protocol as sequences of transfers\<close>

lemma startFrame_eq: "startFrame s = fold transfer [0, 0, 0, 0] (init s)"
  by (simp add: startFrame_def Let_def)

lemma sendColor_eq: "sendColor r g b brightness s = fold transfer [0xE0 OR brightness, b, g, r] s"
  by (simp add: sendColor_def Let_def)

lemma sendColor_rgb_eq: "sendColor_rgb color brightness s = fold transfer (led_word brightness color) s"
  by (simp add: sendColor_rgb_def sendColor_eq led_word_def)

lemma uint16_succ:
  assumes "(i :: uint16_t) < m"
  shows "unat (i + 1) = Suc (unat i)"
proof -
  from assms have "unat i < unat m"
    by (simp add: word_less_nat_alt)
  moreover have "unat m < 2 ^ 16"
    using unsigned_less [of m, where 'a = nat] by simp
  ultimately have "unat i + unat (1 :: uint16_t) < 2 ^ LENGTH(16)"
    by simp
  then have "unat (i + 1) = unat i + unat (1 :: uint16_t)"
    by (simp only: unat_add_lem)
  then show ?thesis
    by simp
qed

lemma endFrame_bound: "unat (5 + (count :: uint16_t) div 16) = 5 + unat count div 16"
proof -
  have "unat count < 2 ^ 16"
    using unsigned_less [of count, where 'a = nat] by simp
  then have "unat (5 :: uint16_t) + unat (count div 16) < 2 ^ LENGTH(16)"
    by (simp add: unat_div)
  then have "unat (5 + count div 16) = unat (5 :: uint16_t) + unat (count div 16)"
    by (simp only: unat_add_lem)
  then show ?thesis
    by (simp add: unat_div)
qed

declare endFrame_loop.simps [simp del]
declare write_loop.simps [simp del]

lemma endFrame_loop_eq:
  "endFrame_loop count i s =
     fold transfer (replicate (5 + unat count div 16 - unat i) 0) s"
proof (induction count i s rule: endFrame_loop.induct)
  case (1 count i s)
  show ?case
  proof (cases "i < 5 + count div 16")
    case True
    then have lt: "unat i < 5 + unat count div 16"
      by (simp add: word_less_nat_alt endFrame_bound)
    have suc: "unat (i + 1) = Suc (unat i)"
      using True by (rule uint16_succ)
    from lt suc have "5 + unat count div 16 - unat i =
        Suc (5 + unat count div 16 - unat (i + 1))"
      by simp
    then have "fold transfer (replicate (5 + unat count div 16 - unat i) 0) s =
        fold transfer (replicate (5 + unat count div 16 - unat (i + 1)) 0) (transfer 0 s)"
      by simp
    also have "\<dots> = endFrame_loop count (i + 1) (transfer 0 s)"
      using "1.IH" [OF True] by simp
    also have "\<dots> = endFrame_loop count i s"
      using True by (subst (2) endFrame_loop.simps) simp
    finally show ?thesis
      by simp
  next
    case False
    then have "5 + unat count div 16 - unat i = 0"
      by (simp add: word_less_nat_alt endFrame_bound)
    with False show ?thesis
      by (subst endFrame_loop.simps) simp
  qed
qed

lemma endFrame_eq:
  "endFrame count s = fold transfer (0xFF # replicate (5 + unat count div 16) 0) s"
  by (simp add: endFrame_def Let_def endFrame_loop_eq)

lemma write_loop_eq:
  assumes "unat count \<le> length colors"
  shows "write_loop colors count brightness i s =
     Inr (colors, fold transfer
       (concat (map (led_word brightness) (drop (unat i) (take (unat count) colors)))) s)"
  using assms
proof (induction colors count brightness i s rule: write_loop.induct)
  case (1 colors count brightness i s)
  show ?case
  proof (cases "i < count")
    case True
    then have lt: "unat i < unat count"
      by (simp add: word_less_nat_alt)
    with "1.prems" have inb: "unat i < length colors"
      by simp
    have suc: "unat (i + 1) = Suc (unat i)"
      using True by (rule uint16_succ)
    have "unat i < length (take (unat count) colors)"
      using lt inb by simp
    then have "drop (unat i) (take (unat count) colors) =
        take (unat count) colors ! unat i # drop (Suc (unat i)) (take (unat count) colors)"
      by (rule Cons_nth_drop_Suc [symmetric])
    with lt suc have split: "drop (unat i) (take (unat count) colors) =
        colors ! unat i # drop (unat (i + 1)) (take (unat count) colors)"
      by simp
    have "write_loop colors count brightness i s =
        write_loop colors count brightness (i + 1)
          (sendColor_rgb (colors ! unat i) brightness s)"
      using True inb by (subst write_loop.simps) simp
    also have "\<dots> = Inr (colors, fold transfer
        (concat (map (led_word brightness) (drop (unat (i + 1)) (take (unat count) colors))))
        (sendColor_rgb (colors ! unat i) brightness s))"
      using True inb "1.prems" by (rule "1.IH")
    finally show ?thesis
      by (simp add: split sendColor_rgb_eq)
  next
    case False
    then have "unat count \<le> unat i"
      by (simp add: word_less_nat_alt)
    with False show ?thesis
      by (subst write_loop.simps) simp
  qed
qed

lemma write_loop_short:
  assumes "length colors < unat count" and "unat i \<le> length colors"
  shows "write_loop colors count brightness i s = Inl OutOfBounds"
  using assms
proof (induction colors count brightness i s rule: write_loop.induct)
  case (1 colors count brightness i s)
  from "1.prems" have lt: "i < count"
    by (simp add: word_less_nat_alt)
  show ?case
  proof (cases "unat i < length colors")
    case True
    have "unat (i + 1) = Suc (unat i)"
      using lt by (rule uint16_succ)
    with True have "unat (i + 1) \<le> length colors"
      by simp
    with lt True "1.prems"(1) have "write_loop colors count brightness (i + 1)
        (sendColor_rgb (colors ! unat i) brightness s) = Inl OutOfBounds"
      by (rule "1.IH")
    with lt True show ?thesis
      by (subst write_loop.simps) simp
  next
    case False
    with lt show ?thesis
      by (subst write_loop.simps) simp
  qed
qed

lemma write_eq:
  assumes "unat count \<le> length colors"
  shows "write_APA102 colors count brightness s =
     Inr (colors, fold transfer
       ([0, 0, 0, 0] @ concat (map (led_word brightness) (take (unat count) colors)) @
        0xFF # replicate (5 + unat count div 16) 0) (init s))"
  using assms by (simp add: write_APA102_def write_loop_eq startFrame_eq endFrame_eq)

lemma write_short:
  assumes "length colors < unat count"
  shows "write_APA102 colors count brightness s = Inl OutOfBounds"
  using assms by (simp add: write_APA102_def write_loop_short)

lemma write_bytes_eq:
  assumes "unat count \<le> length colors"
  shows "write_bytes colors count brightness s =
     Inr ([0, 0, 0, 0] @ concat (map (led_word brightness) (take (unat count) colors)) @
          0xFF # replicate (5 + unat count div 16) 0)"
  unfolding write_bytes_def write_eq [OF assms]
  by (simp only: sum.case prod.case wire_bytes_init_transfers)

lemma length_led_words: "length (concat (map (led_word brightness) cs)) = 4 * length cs"
  by (induction cs) (simp_all add: led_word_def)

lemma nth_led_word:
  assumes "i < length cs"
  shows "take 4 (drop (4 * i) (concat (map (led_word brightness) cs) @ rest)) =
     led_word brightness (cs ! i)"
  using assms
proof (induction cs arbitrary: i)
  case Nil
  then show ?case by simp
next
  case (Cons c cs)
  show ?case
  proof (cases i)
    case 0
    then show ?thesis by (simp add: led_word_def)
  next
    case (Suc j)
    with Cons.prems have "j < length cs" by simp
    then have "take 4 (drop (4 * j) (concat (map (led_word brightness) cs) @ rest)) =
        led_word brightness (cs ! j)"
      by (rule Cons.IH)
    moreover have "length (led_word brightness c) = 4"
      by (simp add: led_word_def)
    then have "drop (4 * i) (led_word brightness c @
        (concat (map (led_word brightness) cs) @ rest)) =
        drop (4 * j) (concat (map (led_word brightness) cs) @ rest)"
      using Suc by (simp only: drop_append) simp
    then have "drop (4 * i) (concat (map (led_word brightness) (c # cs)) @ rest) =
        drop (4 * j) (concat (map (led_word brightness) cs) @ rest)"
      by simp
    ultimately show ?thesis
      using Suc by simp
  qed
qed

lemma drop_start_frame: "drop (4 + n) ([a, b, c, d] @ xs) = drop n xs"
proof -
  have "4 + n = Suc (Suc (Suc (Suc n)))"
    by simp
  then show ?thesis
    by (simp only: append_Cons append_Nil drop_Suc_Cons)
qed

lemma replicate_5: "replicate 5 x = [x, x, x, x, x]"
  by (simp add: eval_nat_numeral)

lemma stream_led_word:
  assumes "i < length cs"
  shows "take 4 (drop (4 + 4 * i)
       ([0, 0, 0, 0] @ concat (map (led_word brightness) cs) @ rest)) =
     led_word brightness (cs ! i)"
  unfolding drop_start_frame using assms by (rule nth_led_word)

lemma led_words_stream:
  assumes "length cs = n"
  shows "led_words n ([0, 0, 0, 0] @ concat (map (led_word brightness) cs) @ rest) =
     map (led_word brightness) cs"
proof -
  have "take 4 (drop (4 + 4 * k) ([0, 0, 0, 0] @ concat (map (led_word brightness) cs) @ rest)) =
      led_word brightness (cs ! k)" if "k < n" for k
    using that assms by (intro stream_led_word) simp
  then have "led_words n ([0, 0, 0, 0] @ concat (map (led_word brightness) cs) @ rest) =
      map (\<lambda>k. led_word brightness (cs ! k)) [0..<n]"
    by (simp add: led_words_def)
  also have "\<dots> = map (led_word brightness) (map ((!) cs) [0..<length cs])"
    using assms by simp
  also have "\<dots> = map (led_word brightness) cs"
    by (simp only: map_nth)
  finally show ?thesis .
qed

lemma header_masked: "(0xE0 :: uint8_t) OR b = 0xE0 OR (b AND 0x1F)"
proof -
  have "(0xE0 :: uint8_t) OR (b AND 0x1F) = (0xE0 OR b) AND (0xE0 OR 0x1F)"
    by (rule bit.disj_conj_distrib)
  also have "(0xE0 :: uint8_t) OR 0x1F = - 1"
    by simp
  finally show ?thesis
    by simp
qed

lemma sendColor_clock_low: "\<not> level (sendColor_rgb color brightness s) clockPin"
  by (simp add: sendColor_rgb_def sendColor_def Let_def transfer_level)

lemma drop_length_append: "length xs = n \<Longrightarrow> drop n (xs @ ys) = ys"
  by simp

section \<open>The claims\<close>

text \<open>
  C1. For every \<open>count \<ge> 1\<close>, every brightness in \<open>[0, 31]\<close> and every array of
  \<open>count\<close> colors, \<open>write\<close> returns and has put on the wire the four bytes 0 of
  the start frame, then \<open>count\<close> LED words of four bytes each, then the end frame of
  \<open>6 + count div 16\<close> bytes: \<open>4 + 4 * count + 6 + count div 16\<close> bytes in all.
\<close>

theorem write_stream_layout:
  assumes "1 \<le> unat count" and "brightness \<le> 31" and "length colors = unat count"
  shows
    "(let start_frame = [0x00, 0x00, 0x00, 0x00];
          leds = map (led_word brightness) colors;
          end_frame = 0xFF # replicate (5 + unat count div 16) 0x00
      in write_bytes colors count brightness s = Inr (start_frame @ concat leds @ end_frame)
       \<and> length leds = unat count
       \<and> list_all (\<lambda>w. length w = 4) leds
       \<and> length end_frame = 6 + unat count div 16
       \<and> length (start_frame @ concat leds @ end_frame) =
           4 + 4 * unat count + 6 + unat count div 16)"
proof -
  have "unat count \<le> length colors"
    using assms(3) by simp
  then have "write_bytes colors count brightness s =
      Inr ([0, 0, 0, 0] @ concat (map (led_word brightness) (take (unat count) colors)) @
        0xFF # replicate (5 + unat count div 16) 0)"
    by (rule write_bytes_eq)
  moreover have "list_all (\<lambda>w. length w = 4) (map (led_word brightness) colors)"
    by (simp add: list_all_iff led_word_def)
  ultimately show ?thesis
    using assms(3) by (simp add: Let_def length_led_words)
qed

theorem write_stream_layout_witness:
  "1 \<le> unat (1 :: uint16_t) \<and> (31 :: uint8_t) \<le> 31
   \<and> length [\<lparr>red = 1, green = 2, blue = 3\<rparr>] = unat (1 :: uint16_t)
   \<and> write_bytes [\<lparr>red = 1, green = 2, blue = 3\<rparr>] 1 31 power_on =
       Inr [0x00, 0x00, 0x00, 0x00, 0xFF, 0x03, 0x02, 0x01, 0xFF, 0x00, 0x00, 0x00, 0x00, 0x00]"
  using write_stream_layout [of 1 31 "[\<lparr>red = 1, green = 2, blue = 3\<rparr>]" power_on]
  by (simp add: Let_def led_word_def replicate_5)

text \<open>
  C2. For every LED index \<open>i < count\<close>, the four bytes that \<open>write\<close> puts on the
  wire at byte offset \<open>4 + 4 * i\<close> are the brightness header \<open>(0b111 << 5) | b\<close>,
  then the blue, the green and the red channel of \<open>colors[i]\<close>.
\<close>

theorem write_led_word:
  assumes "i < unat count" and "length colors = unat count"
  shows "\<exists>bytes. write_bytes colors count brightness s = Inr bytes
     \<and> take 4 (drop (4 + 4 * i) bytes) =
         [push_bit 5 7 OR brightness, blue (colors ! i), green (colors ! i), red (colors ! i)]"
proof -
  have "unat count \<le> length colors"
    using assms(2) by simp
  then have "write_bytes colors count brightness s =
      Inr ([0, 0, 0, 0] @ concat (map (led_word brightness) (take (unat count) colors)) @
        0xFF # replicate (5 + unat count div 16) 0)"
    by (rule write_bytes_eq)
  then have "write_bytes colors count brightness s =
      Inr ([0, 0, 0, 0] @ concat (map (led_word brightness) colors) @
        0xFF # replicate (5 + unat count div 16) 0)"
    using assms(2) by simp
  moreover have "take 4 (drop (4 + 4 * i) ([0, 0, 0, 0] @
      concat (map (led_word brightness) colors) @
      0xFF # replicate (5 + unat count div 16) 0)) = led_word brightness (colors ! i)"
    using assms by (intro stream_led_word) simp
  moreover have "led_word brightness (colors ! i) =
      [push_bit 5 7 OR brightness, blue (colors ! i), green (colors ! i), red (colors ! i)]"
    by (simp add: led_word_def)
  ultimately show ?thesis
    by (simp only: sum.inject simp_thms ex_simps)
qed

theorem write_led_word_witness:
  "(1 :: nat) < unat (2 :: uint16_t)
   \<and> length [\<lparr>red = 1, green = 2, blue = 3\<rparr>, \<lparr>red = 4, green = 5, blue = 6\<rparr>] =
       unat (2 :: uint16_t)
   \<and> (\<exists>bytes. write_bytes [\<lparr>red = 1, green = 2, blue = 3\<rparr>, \<lparr>red = 4, green = 5, blue = 6\<rparr>]
         2 9 power_on = Inr bytes
       \<and> take 4 (drop 8 bytes) = [0xE9, 0x06, 0x05, 0x04])"
  using write_led_word [of 1 2
      "[\<lparr>red = 1, green = 2, blue = 3\<rparr>, \<lparr>red = 4, green = 5, blue = 6\<rparr>]" 9 power_on]
  by simp

text \<open>
  C3. For every \<open>count\<close>, \<open>endFrame count\<close> transfers one byte 0xFF and then
  \<open>5 + count div 16\<close> bytes 0, and makes no other GPIO call; entered with the clock low,
  as \<open>startFrame\<close> and every \<open>transfer\<close> leave it, these are the bytes on the wire.
  In the stream of \<open>write\<close>, the byte right after the last LED word is 0xFF.
\<close>

theorem endFrame_stream:
  assumes "\<not> level s clockPin" and "length colors = unat count"
  shows "emitted s (endFrame count s) =
       concat (map byte_calls (0xFF # replicate (5 + unat count div 16) 0x00))
     \<and> wire_bytes s (endFrame count s) = 0xFF # replicate (5 + unat count div 16) 0x00
     \<and> (\<exists>bytes. write_bytes colors count brightness s' = Inr bytes
          \<and> bytes ! (4 + 4 * unat count) = 0xFF)"
proof -
  have "emitted s (endFrame count s) =
      concat (map byte_calls (0xFF # replicate (5 + unat count div 16) 0))"
    unfolding endFrame_eq by (rule emitted_append) (rule transfers_calls)
  moreover have "wire_bytes s (endFrame count s) = 0xFF # replicate (5 + unat count div 16) 0"
    unfolding endFrame_eq using assms(1) by (rule wire_bytes_transfers)
  moreover have "\<exists>bytes. write_bytes colors count brightness s' = Inr bytes
      \<and> bytes ! (4 + 4 * unat count) = 0xFF"
  proof -
    have "unat count \<le> length colors"
      using assms(2) by simp
    then have "write_bytes colors count brightness s' =
        Inr ([0, 0, 0, 0] @ concat (map (led_word brightness) (take (unat count) colors)) @
          0xFF # replicate (5 + unat count div 16) 0)"
      by (rule write_bytes_eq)
    moreover have "([0, 0, 0, 0] @ concat (map (led_word brightness) (take (unat count) colors)) @
        0xFF # replicate (5 + unat count div 16) 0) ! (4 + 4 * unat count) = 0xFF"
      using assms(2) by (simp add: nth_append length_led_words)
    ultimately show ?thesis
      by (simp only: sum.inject simp_thms ex_simps)
  qed
  ultimately show ?thesis
    by (simp only: simp_thms)
qed

theorem endFrame_stream_witness:
  "\<not> level power_on clockPin
   \<and> length [\<lparr>red = 1, green = 2, blue = 3\<rparr>] = unat (1 :: uint16_t)
   \<and> wire_bytes power_on (endFrame 1 power_on) = [0xFF, 0x00, 0x00, 0x00, 0x00, 0x00]
   \<and> (\<exists>bytes. write_bytes [\<lparr>red = 1, green = 2, blue = 3\<rparr>] 1 31 power_on = Inr bytes
        \<and> bytes ! 8 = 0xFF)"
proof -
  have low: "\<not> level power_on clockPin"
    by (simp add: power_on_def)
  have len: "length [\<lparr>red = 1, green = 2, blue = 3\<rparr>] = unat (1 :: uint16_t)"
    by simp
  note th = endFrame_stream [OF low len, of 31 power_on]
  have "wire_bytes power_on (endFrame 1 power_on) = [0xFF, 0x00, 0x00, 0x00, 0x00, 0x00]"
    using th [THEN conjunct2, THEN conjunct1] by (simp add: replicate_5)
  moreover have "\<exists>bytes. write_bytes [\<lparr>red = 1, green = 2, blue = 3\<rparr>] 1 31 power_on = Inr bytes
      \<and> bytes ! 8 = 0xFF"
    using th [THEN conjunct2, THEN conjunct2] by simp
  ultimately show ?thesis
    using low len by (simp only: simp_thms)
qed

text \<open>
  C4. For every 8-bit brightness, also outside \<open>[0, 31]\<close>, \<open>sendColor\<close> does what it
  does for the brightness masked to its low five bits, and the header byte it puts on the
  wire is \<open>0b11100000 | (brightness & 0b11111)\<close>: a brightness out of range is masked,
  not saturated.
\<close>

theorem sendColor_brightness_masked:
  assumes "\<not> level s clockPin"
  shows "sendColor r g b brightness s = sendColor r g b (brightness AND 0x1F) s
     \<and> hd (wire_bytes s (sendColor r g b brightness s)) = 0xE0 OR (brightness AND 0x1F)"
proof -
  have "sendColor r g b brightness s = sendColor r g b (brightness AND 0x1F) s"
    unfolding sendColor_eq using header_masked [of brightness] by simp
  moreover have "wire_bytes s (sendColor r g b brightness s) = [0xE0 OR brightness, b, g, r]"
    unfolding sendColor_eq using assms by (rule wire_bytes_transfers)
  ultimately show ?thesis
    using header_masked [of brightness] by simp
qed

theorem sendColor_brightness_masked_witness:
  "\<not> level power_on clockPin
   \<and> sendColor 1 2 3 37 power_on = sendColor 1 2 3 5 power_on
   \<and> hd (wire_bytes power_on (sendColor 1 2 3 37 power_on)) = 0xE5"
proof -
  have low: "\<not> level power_on clockPin"
    by (simp add: power_on_def)
  note th = sendColor_brightness_masked [OF low, of 1 2 3 37]
  have "sendColor 1 2 3 37 power_on = sendColor 1 2 3 5 power_on"
    using th [THEN conjunct1] by simp
  moreover have "hd (wire_bytes power_on (sendColor 1 2 3 37 power_on)) = 0xE5"
    using th [THEN conjunct2] by simp
  ultimately show ?thesis
    using low by (simp only: simp_thms)
qed

text \<open>
  C5. For every byte \<open>b\<close>, \<open>transfer b\<close> sends the eight bits of \<open>b\<close>, the most
  significant first, and each bit as three GPIO calls: the data line is set to the bit, the
  clock is raised, the clock is lowered. It makes no other call. When it returns, the clock
  line is low and the data line holds bit 0 of \<open>b\<close>, the last bit sent.
\<close>

theorem transfer_msb_first:
  "calls (transfer b s) = calls s @
     [DigitalWrite dataPin (bit b 7), DigitalWrite clockPin True, DigitalWrite clockPin False,
      DigitalWrite dataPin (bit b 6), DigitalWrite clockPin True, DigitalWrite clockPin False,
      DigitalWrite dataPin (bit b 5), DigitalWrite clockPin True, DigitalWrite clockPin False,
      DigitalWrite dataPin (bit b 4), DigitalWrite clockPin True, DigitalWrite clockPin False,
      DigitalWrite dataPin (bit b 3), DigitalWrite clockPin True, DigitalWrite clockPin False,
      DigitalWrite dataPin (bit b 2), DigitalWrite clockPin True, DigitalWrite clockPin False,
      DigitalWrite dataPin (bit b 1), DigitalWrite clockPin True, DigitalWrite clockPin False,
      DigitalWrite dataPin (bit b 0), DigitalWrite clockPin True, DigitalWrite clockPin False]
   \<and> level (transfer b s) clockPin = False
   \<and> level (transfer b s) dataPin = bit b 0"
  by (simp add: transfer_calls transfer_level byte_calls_def bit_calls_def)

theorem transfer_msb_first_witness:
  "calls (transfer 0xA5 power_on) =
     [DigitalWrite dataPin True, DigitalWrite clockPin True, DigitalWrite clockPin False,
      DigitalWrite dataPin False, DigitalWrite clockPin True, DigitalWrite clockPin False,
      DigitalWrite dataPin True, DigitalWrite clockPin True, DigitalWrite clockPin False,
      DigitalWrite dataPin False, DigitalWrite clockPin True, DigitalWrite clockPin False,
      DigitalWrite dataPin False, DigitalWrite clockPin True, DigitalWrite clockPin False,
      DigitalWrite dataPin True, DigitalWrite clockPin True, DigitalWrite clockPin False,
      DigitalWrite dataPin False, DigitalWrite clockPin True, DigitalWrite clockPin False,
      DigitalWrite dataPin True, DigitalWrite clockPin True, DigitalWrite clockPin False]
   \<and> level (transfer 0xA5 power_on) clockPin = False
   \<and> level (transfer 0xA5 power_on) dataPin = True"
  using transfer_msb_first [of "0xA5" power_on]
  by (simp add: power_on_def)

text \<open>
  C6. For every \<open>count \<ge> 1\<close>, the bytes of \<open>endFrame count\<close> after the last color
  word (0xFF and \<open>5 + count div 16\<close> bytes 0, each bit a rising and a falling clock edge)
  make \<open>16 * (6 + count div 16)\<close> clock edges. These are at least
  \<open>65 + (count - 1)\<close>, and so at least \<open>count - 1\<close>: both latch constraints hold.
  The edges of the bytes 0 alone, after the byte 0xFF, are at least \<open>65 + (count - 1)\<close>
  too.
\<close>

theorem endFrame_clock_edges:
  assumes "1 \<le> unat count"
  shows "(let s = sendColor_rgb color brightness s0;
              edges = wire_edges s (endFrame count s);
              zero_edges = wire_edges (transfer 0xFF s) (endFrame count s)
          in edges = 2 * 8 * (1 + (5 + unat count div 16))
           \<and> zero_edges = 2 * 8 * (5 + unat count div 16)
           \<and> 65 + (unat count - 1) \<le> zero_edges
           \<and> 65 + (unat count - 1) \<le> edges
           \<and> unat count - 1 \<le> edges)"
proof -
  let ?s = "sendColor_rgb color brightness s0"
  have "\<not> level ?s clockPin"
    by (rule sendColor_clock_low)
  then have "wire_edges ?s (endFrame count ?s) =
      16 * length (0xFF # replicate (5 + unat count div 16) (0 :: uint8_t))"
    unfolding endFrame_eq by (rule wire_edges_transfers)
  moreover have "\<not> level (transfer 0xFF ?s) clockPin"
    by (simp add: transfer_level)
  then have "wire_edges (transfer 0xFF ?s)
        (fold transfer (replicate (5 + unat count div 16) 0) (transfer 0xFF ?s)) =
      16 * length (replicate (5 + unat count div 16) (0 :: uint8_t))"
    by (rule wire_edges_transfers)
  then have "wire_edges (transfer 0xFF ?s) (endFrame count ?s) =
      16 * length (replicate (5 + unat count div 16) (0 :: uint8_t))"
    by (simp add: endFrame_eq)
  moreover have "unat count \<le> 16 * (unat count div 16) + 15"
    by presburger
  ultimately show ?thesis
    using assms by (simp add: Let_def)
qed

theorem endFrame_clock_edges_witness:
  "1 \<le> unat (16 :: uint16_t)
   \<and> wire_edges (sendColor_rgb \<lparr>red = 1, green = 2, blue = 3\<rparr> 31 power_on)
        (endFrame 16 (sendColor_rgb \<lparr>red = 1, green = 2, blue = 3\<rparr> 31 power_on)) = 112
   \<and> wire_edges (transfer 0xFF (sendColor_rgb \<lparr>red = 1, green = 2, blue = 3\<rparr> 31 power_on))
        (endFrame 16 (sendColor_rgb \<lparr>red = 1, green = 2, blue = 3\<rparr> 31 power_on)) = 96
   \<and> 65 + (unat (16 :: uint16_t) - 1) \<le> (96 :: nat)"
  using endFrame_clock_edges [of 16 "\<lparr>red = 1, green = 2, blue = 3\<rparr>" 31 power_on]
  by (simp add: Let_def)

text \<open>
  C7. For every red, green, blue and brightness, \<open>sendColor\<close> with the four values and
  \<open>sendColor\<close> with the struct of the three channels do the same: the same GPIO calls,
  the same bytes on the wire, the same state after.
\<close>

theorem sendColor_overloads_agree:
  "sendColor_rgb \<lparr>red = r, green = g, blue = b\<rparr> brightness s = sendColor r g b brightness s
   \<and> emitted s (sendColor_rgb \<lparr>red = r, green = g, blue = b\<rparr> brightness s) =
       emitted s (sendColor r g b brightness s)
   \<and> wire_bytes s (sendColor_rgb \<lparr>red = r, green = g, blue = b\<rparr> brightness s) =
       wire_bytes s (sendColor r g b brightness s)"
  by (simp add: sendColor_rgb_def)

theorem sendColor_overloads_agree_witness:
  "sendColor_rgb \<lparr>red = 1, green = 2, blue = 3\<rparr> 31 power_on = sendColor 1 2 3 31 power_on"
  using sendColor_overloads_agree [of 1 2 3 31 power_on]
  by (simp only: simp_thms)

text \<open>
  C8. For every count, brightness, array of \<open>count\<close> colors and permutation \<open>ps\<close>
  of the indices below \<open>count\<close>, the stream \<open>write\<close> makes of the permuted array
  differs from the stream of the array only in the order of the \<open>count\<close> LED words,
  which are permuted by \<open>ps\<close>: the start frame, the end frame and the length are the
  same. A list of indices is a permutation when sorting it gives \<open>0, \<dots>, count - 1\<close>.
\<close>

theorem write_permuted:
  assumes "length colors = unat count" and "sort ps = [0..<unat count]"
  shows "\<exists>bytes bytes'.
       write_bytes colors count brightness s = Inr bytes
     \<and> write_bytes (map (\<lambda>k. colors ! k) ps) count brightness s = Inr bytes'
     \<and> length bytes' = length bytes
     \<and> take 4 bytes' = take 4 bytes
     \<and> drop (4 + 4 * unat count) bytes' = drop (4 + 4 * unat count) bytes
     \<and> led_words (unat count) bytes' = map (\<lambda>k. led_words (unat count) bytes ! k) ps"
proof -
  let ?n = "unat count"
  let ?tail = "0xFF # replicate (5 + ?n div 16) (0 :: uint8_t)"
  let ?colors' = "map (\<lambda>k. colors ! k) ps"
  let ?bytes = "[0, 0, 0, 0] @ concat (map (led_word brightness) colors) @ ?tail"
  let ?bytes' = "[0, 0, 0, 0] @ concat (map (led_word brightness) ?colors') @ ?tail"
  have "length (sort ps) = length [0..<?n]"
    by (simp only: assms(2))
  then have len_ps: "length ps = ?n"
    by simp
  have "set (sort ps) = {0..<?n}"
    by (simp only: assms(2) set_upt)
  then have set_ps: "set ps = {0..<?n}"
    by simp
  have len': "length ?colors' = ?n"
    using len_ps by simp
  have "write_bytes colors count brightness s =
      Inr ([0, 0, 0, 0] @ concat (map (led_word brightness) (take ?n colors)) @ ?tail)"
    using assms(1) by (intro write_bytes_eq) simp
  then have b: "write_bytes colors count brightness s = Inr ?bytes"
    using assms(1) by simp
  have "write_bytes ?colors' count brightness s =
      Inr ([0, 0, 0, 0] @ concat (map (led_word brightness) (take ?n ?colors')) @ ?tail)"
    using len' by (intro write_bytes_eq) simp
  then have b': "write_bytes ?colors' count brightness s = Inr ?bytes'"
    using len' by simp
  have lc: "length (concat (map (led_word brightness) colors)) = 4 * ?n"
    using assms(1) by (simp only: length_led_words)
  have lc': "length (concat (map (led_word brightness) ?colors')) = 4 * ?n"
    using len' by (simp only: length_led_words)
  have l: "length ?bytes' = length ?bytes"
    by (simp only: length_append lc lc')
  have st: "take 4 ?bytes' = take 4 ?bytes"
    by simp
  have "drop (4 + 4 * ?n) ?bytes = ?tail"
    unfolding drop_start_frame using lc by (rule drop_length_append)
  moreover have "drop (4 + 4 * ?n) ?bytes' = ?tail"
    unfolding drop_start_frame using lc' by (rule drop_length_append)
  ultimately have en: "drop (4 + 4 * ?n) ?bytes' = drop (4 + 4 * ?n) ?bytes"
    by (simp only:)
  have w: "led_words ?n ?bytes = map (led_word brightness) colors"
    using assms(1) by (rule led_words_stream)
  have w': "led_words ?n ?bytes' = map (led_word brightness) ?colors'"
    using len' by (rule led_words_stream)
  have "map (led_word brightness) ?colors' =
      map (\<lambda>k. map (led_word brightness) colors ! k) ps"
    using set_ps assms(1) by simp
  with w w' have ws: "led_words ?n ?bytes' = map (\<lambda>k. led_words ?n ?bytes ! k) ps"
    by simp
  from b b' l st en ws show ?thesis
    by blast
qed

theorem write_permuted_witness:
  "length [\<lparr>red = 1, green = 2, blue = 3\<rparr>, \<lparr>red = 4, green = 5, blue = 6\<rparr>] =
     unat (2 :: uint16_t)
   \<and> sort [1, 0] = [0..<unat (2 :: uint16_t)]
   \<and> (\<exists>bytes bytes'.
       write_bytes [\<lparr>red = 1, green = 2, blue = 3\<rparr>, \<lparr>red = 4, green = 5, blue = 6\<rparr>]
         2 31 power_on = Inr bytes
     \<and> write_bytes [\<lparr>red = 4, green = 5, blue = 6\<rparr>, \<lparr>red = 1, green = 2, blue = 3\<rparr>]
         2 31 power_on = Inr bytes'
     \<and> length bytes' = length bytes
     \<and> take 4 bytes' = take 4 bytes
     \<and> drop 12 bytes' = drop 12 bytes
     \<and> led_words 2 bytes' = [led_words 2 bytes ! 1, led_words 2 bytes ! 0])"
proof -
  have len: "length [\<lparr>red = 1, green = 2, blue = 3\<rparr>, \<lparr>red = 4, green = 5, blue = 6\<rparr>] =
      unat (2 :: uint16_t)"
    by simp
  have perm: "sort [1, 0] = [0..<unat (2 :: uint16_t)]"
    by (simp add: upt_rec)
  from write_permuted [OF len perm, of 31 power_on] len perm show ?thesis
    by simp
qed

text \<open>
  C9. With \<open>count = 0\<close>, \<open>write\<close> puts exactly the ten bytes
  \<open>00 00 00 00 FF 00 00 00 00 00\<close> on the wire: the start frame, no LED word, 0xFF and
  five bytes 0. It reads no element of the array: it returns for every array, the empty
  one too, where any read would stop with \<open>OutOfBounds\<close>, and the pins end as
  \<open>startFrame\<close> and \<open>endFrame 0\<close> alone leave them.
\<close>

theorem write_count_zero:
  "write_bytes colors 0 brightness s =
     Inr [0x00, 0x00, 0x00, 0x00, 0xFF, 0x00, 0x00, 0x00, 0x00, 0x00]
   \<and> write_APA102 colors 0 brightness s = Inr (colors, endFrame 0 (startFrame s))
   \<and> write_APA102 [] 0 brightness s = Inr ([], endFrame 0 (startFrame s))"
proof -
  have "write_bytes colors 0 brightness s =
      Inr [0x00, 0x00, 0x00, 0x00, 0xFF, 0x00, 0x00, 0x00, 0x00, 0x00]"
    using write_bytes_eq [of 0 colors brightness s] by (simp add: replicate_5)
  moreover have "write_APA102 cs 0 brightness s = Inr (cs, endFrame 0 (startFrame s))" for cs
    using write_eq [of 0 cs brightness s] by (simp add: endFrame_eq startFrame_eq)
  ultimately show ?thesis
    by simp
qed

theorem write_count_zero_witness:
  "write_bytes [] 0 31 power_on =
     Inr [0x00, 0x00, 0x00, 0x00, 0xFF, 0x00, 0x00, 0x00, 0x00, 0x00]
   \<and> write_APA102 [] 0 31 power_on = Inr ([], endFrame 0 (startFrame power_on))"
  using write_count_zero [of "[]" 31 power_on]
  by (simp only: simp_thms)

text \<open>
  C10. \<open>write\<close> never changes the array of the caller: when it returns, the array is
  as it was. It reads the array at the indices below \<open>count\<close> and at no other: two
  arrays that agree below \<open>count\<close> leave the pins in the same state, whatever lies
  beyond, and an array of just \<open>count\<close> elements is enough for it to return.
\<close>

theorem write_leaves_colors:
  assumes "unat count \<le> length colors"
    and "take (unat count) colors' = take (unat count) colors"
    and "unat count \<le> length colors'"
  shows "\<exists>s'. write_APA102 colors count brightness s = Inr (colors, s')
     \<and> write_APA102 colors' count brightness s = Inr (colors', s')
     \<and> write_APA102 (take (unat count) colors) count brightness s = Inr (take (unat count) colors, s')"
proof -
  have "unat count \<le> length (take (unat count) colors)"
    using assms(1) by simp
  then have "write_APA102 (take (unat count) colors) count brightness s =
      Inr (take (unat count) colors, fold transfer
       ([0, 0, 0, 0] @ concat (map (led_word brightness)
          (take (unat count) (take (unat count) colors))) @
        0xFF # replicate (5 + unat count div 16) 0) (init s))"
    by (rule write_eq)
  then show ?thesis
    using write_eq [OF assms(1), of brightness s] write_eq [OF assms(3), of brightness s]
      assms(2) by simp
qed

theorem write_leaves_colors_witness:
  "unat (1 :: uint16_t) \<le> length [\<lparr>red = 1, green = 2, blue = 3\<rparr>, \<lparr>red = 4, green = 5, blue = 6\<rparr>]
   \<and> take (unat (1 :: uint16_t)) [\<lparr>red = 1, green = 2, blue = 3\<rparr>, \<lparr>red = 7, green = 8, blue = 9\<rparr>] =
       take (unat (1 :: uint16_t)) [\<lparr>red = 1, green = 2, blue = 3\<rparr>, \<lparr>red = 4, green = 5, blue = 6\<rparr>]
   \<and> unat (1 :: uint16_t) \<le> length [\<lparr>red = 1, green = 2, blue = 3\<rparr>, \<lparr>red = 7, green = 8, blue = 9\<rparr>]
   \<and> (\<exists>s'. write_APA102 [\<lparr>red = 1, green = 2, blue = 3\<rparr>, \<lparr>red = 4, green = 5, blue = 6\<rparr>] 1 31 power_on =
          Inr ([\<lparr>red = 1, green = 2, blue = 3\<rparr>, \<lparr>red = 4, green = 5, blue = 6\<rparr>], s')
        \<and> write_APA102 [\<lparr>red = 1, green = 2, blue = 3\<rparr>, \<lparr>red = 7, green = 8, blue = 9\<rparr>] 1 31 power_on =
          Inr ([\<lparr>red = 1, green = 2, blue = 3\<rparr>, \<lparr>red = 7, green = 8, blue = 9\<rparr>], s')
        \<and> write_APA102 [\<lparr>red = 1, green = 2, blue = 3\<rparr>] 1 31 power_on =
          Inr ([\<lparr>red = 1, green = 2, blue = 3\<rparr>], s'))"
  using write_leaves_colors [of 1
      "[\<lparr>red = 1, green = 2, blue = 3\<rparr>, \<lparr>red = 4, green = 5, blue = 6\<rparr>]"
      "[\<lparr>red = 1, green = 2, blue = 3\<rparr>, \<lparr>red = 7, green = 8, blue = 9\<rparr>]" 31 power_on]
  by simp

end
